theory Spec2Isabelle
  imports Complex_Main "HOL-Library.AList"
begin

section \<open>Data model of \<open>src/app/main.py\<close>\<close>

text \<open>
  A Python \<open>dict\<close> with string keys is an association list in insertion order:
  \<open>d[k] = v\<close> is \<^const>\<open>AList.update\<close> (an existing key keeps its position, a new key
  goes to the end), \<open>del d[k]\<close> is \<^const>\<open>AList.delete\<close>, \<open>d.get(k)\<close> is
  \<^const>\<open>map_of\<close>, \<open>k in d\<close> is \<open>map_of d k \<noteq> None\<close>, \<open>len(d)\<close> is \<^const>\<open>length\<close> and
  \<open>d.items()\<close> is the list itself.
\<close>

type_synonym 'v dict = "(string \<times> 'v) list"

text \<open>The values of \<open>Dict[str, Any]\<close> payloads. A value of \<open>time.time()\<close> is carried as
  a number that the program never computes with.\<close>

datatype json =
    JNull
  | JBool bool
  | JInt int
  | JFloat real
  | JStr string
  | JArr "json list"
  | JObj "(string \<times> json) list"

text \<open>\<open>HTTPException(status_code=..., detail=...)\<close>, the only exception the handlers raise.\<close>

datatype error = HTTPException (status_code: nat) (detail: string)

text \<open>The exception of the two lookups that fail, \<open>HTTPException(status_code=404,
  detail="Task not found")\<close>.\<close>

abbreviation NotFound :: error where
  "NotFound \<equiv> HTTPException 404 ''Task not found''"

text \<open>\<open>class TaskRequest(BaseModel)\<close>: \<open>task_id\<close>, \<open>data\<close>, \<open>priority\<close>.\<close>

record TaskRequest =
  req_task_id :: string
  req_data :: "json dict"
  req_priority :: int

text \<open>\<open>class TaskResponse(BaseModel)\<close>: \<open>task_id\<close>, \<open>status\<close>, \<open>message\<close> and the optional
  \<open>result\<close>, which defaults to \<open>None\<close>.\<close>

record TaskResponse =
  resp_task_id :: string
  resp_status :: string
  resp_message :: string
  resp_result :: "json dict option"

text \<open>
  A value of \<open>tasks_store\<close>: the dict literal that \<open>create_task\<close> stores has the keys
  \<open>status\<close>, \<open>data\<close>, \<open>priority\<close> and \<open>created_at\<close>; \<open>process_task\<close> adds the key \<open>result\<close>.
  The key \<open>result\<close> being absent is \<^const>\<open>None\<close>, which is also what
  \<open>task_data.get("result")\<close> reads then.
\<close>

record task =
  status :: string
  data :: "json dict"
  priority :: int
  created_at :: real
  result :: "json dict option"

text \<open>An element of the \<open>tasks\<close> list that \<open>list_tasks\<close> builds:
  \<open>{"task_id": tid, **data}\<close>, the identifier and every stored field.\<close>

record task_item =
  item_task_id :: string
  item_status :: string
  item_data :: "json dict"
  item_priority :: int
  item_created_at :: real
  item_result :: "json dict option"

text \<open>The body that \<open>list_tasks\<close> returns: the keys \<open>tasks\<close> and \<open>count\<close>.\<close>

record task_list =
  tasks :: "task_item list"
  count :: nat

text \<open>
  The state of the process: the module-level \<open>tasks_store\<close>, and the calls
  \<open>process_task(task_id)\<close> that \<open>background_tasks.add_task\<close> has scheduled and that
  have not run yet.
\<close>

record app_state =
  tasks_store :: "task dict"
  background_tasks :: "string list"

definition initial :: app_state where
  "initial = \<lparr>tasks_store = [], background_tasks = []\<rparr>"

section \<open>The handlers\<close>

text \<open>Each handler takes the state and returns its response, or the exception it
  raises, with the state it leaves. The reading of the clock is the argument \<open>now\<close>.\<close>

definition create_task ::
  "TaskRequest \<Rightarrow> real \<Rightarrow> app_state \<Rightarrow> (error + TaskResponse) \<times> app_state" where
  "create_task task now s =
     (Inr \<lparr>resp_task_id = req_task_id task,
           resp_status = ''accepted'',
           resp_message = ''Task created successfully'',
           resp_result = None\<rparr>,
      s\<lparr>tasks_store :=
           AList.update (req_task_id task)
             \<lparr>status = ''pending'',
              data = req_data task,
              priority = req_priority task,
              created_at = now,
              result = None\<rparr>
             (tasks_store s),
        background_tasks := background_tasks s @ [req_task_id task]\<rparr>)"

definition get_task :: "string \<Rightarrow> app_state \<Rightarrow> (error + TaskResponse) \<times> app_state" where
  "get_task task_id s =
     (case map_of (tasks_store s) task_id of
        None \<Rightarrow> (Inl NotFound, s)
      | Some task_data \<Rightarrow>
          (Inr \<lparr>resp_task_id = task_id,
                resp_status = status task_data,
                resp_message = ''Task retrieved successfully'',
                resp_result = result task_data\<rparr>,
           s))"

definition delete_task :: "string \<Rightarrow> app_state \<Rightarrow> (error + string dict) \<times> app_state" where
  "delete_task task_id s =
     (case map_of (tasks_store s) task_id of
        None \<Rightarrow> (Inl NotFound, s)
      | Some _ \<Rightarrow>
          (Inr [(''message'', ''Task deleted successfully'')],
           s\<lparr>tasks_store := AList.delete task_id (tasks_store s)\<rparr>))"

definition list_tasks :: "app_state \<Rightarrow> (error + task_list) \<times> app_state" where
  "list_tasks s =
     (Inr \<lparr>tasks =
             map (\<lambda>(tid, d).
                    \<lparr>item_task_id = tid,
                     item_status = status d,
                     item_data = data d,
                     item_priority = priority d,
                     item_created_at = created_at d,
                     item_result = result d\<rparr>)
               (tasks_store s),
           count = length (tasks_store s)\<rparr>,
      s)"

text \<open>\<open>process_task\<close> after its sleep: the existence check and the two assignments.\<close>

definition process_task :: "string \<Rightarrow> real \<Rightarrow> app_state \<Rightarrow> app_state" where
  "process_task task_id now s =
     (case map_of (tasks_store s) task_id of
        None \<Rightarrow> s
      | Some t \<Rightarrow>
          s\<lparr>tasks_store :=
               AList.update task_id
                 (t\<lparr>status := ''completed'',
                    result := Some [(''processed_at'', JFloat now),
                                    (''message'', JStr ''Task completed successfully'')]\<rparr>)
                 (tasks_store s)\<rparr>)"

section \<open>Runs of the service\<close>

text \<open>
  What can happen to the state: a request to one of the four task routes, or a
  scheduled \<open>process_task\<close> call reaching its update. A scheduled call runs once; an
  identifier with no scheduled call has no completion step to run.
\<close>

datatype event =
    Create TaskRequest real
  | Get string
  | ListAll
  | Delete string
  | Complete string real

fun step :: "event \<Rightarrow> app_state \<Rightarrow> app_state" where
  "step (Create task now) s = snd (create_task task now s)"
| "step (Get task_id) s = snd (get_task task_id s)"
| "step ListAll s = snd (list_tasks s)"
| "step (Delete task_id) s = snd (delete_task task_id s)"
| "step (Complete task_id now) s =
     (if task_id \<in> set (background_tasks s)
      then process_task task_id now
             (s\<lparr>background_tasks := remove1 task_id (background_tasks s)\<rparr>)
      else s)"

definition run :: "event list \<Rightarrow> app_state \<Rightarrow> app_state" where
  "run evs s = fold step evs s"

section \<open>Properties of stores and records\<close>

text \<open>A Python dict holds each key once.\<close>

definition is_dict :: "'v dict \<Rightarrow> bool" where
  "is_dict d = distinct (map fst d)"

text \<open>A record has a result when the key \<open>result\<close> is present and its value is not the
  empty dict.\<close>

definition has_result :: "task \<Rightarrow> bool" where
  "has_result t = (case result t of None \<Rightarrow> False | Some r \<Rightarrow> r \<noteq> [])"

definition result_iff_completed :: "app_state \<Rightarrow> bool" where
  "result_iff_completed s =
     (\<forall>(tid, t) \<in> set (tasks_store s). has_result t \<longleftrightarrow> status t = ''completed'')"

text \<open>The value under \<open>key\<close> of the result of the record stored for \<open>task_id\<close>, when
  all three exist.\<close>

definition result_field :: "string \<Rightarrow> string \<Rightarrow> app_state \<Rightarrow> json option" where
  "result_field task_id key s =
     (case map_of (tasks_store s) task_id of
        None \<Rightarrow> None
      | Some t \<Rightarrow> (case result t of None \<Rightarrow> None | Some r \<Rightarrow> map_of r key))"

text \<open>A request, and the state that it leaves when it arrives first, at time 100.\<close>

definition demo_request :: TaskRequest where
  "demo_request = \<lparr>req_task_id = ''t1'', req_data = [(''x'', JInt 1)], req_priority = 5\<rparr>"

definition demo_state :: app_state where
  "demo_state =
     \<lparr>tasks_store =
        [(''t1'', \<lparr>status = ''pending'', data = [(''x'', JInt 1)], priority = 5,
                   created_at = 100, result = None\<rparr>)],
      background_tasks = [''t1'']\<rparr>"

text \<open>What every reachable store satisfies besides: its keys are distinct, and each
  status is one of the two strings that the code ever stores.\<close>

definition store_shape :: "app_state \<Rightarrow> bool" where
  "store_shape s =
     (is_dict (tasks_store s) \<and>
      (\<forall>(tid, t) \<in> set (tasks_store s). status t = ''pending'' \<or> status t = ''completed''))"

text \<open>The identifier and the stored fields that an element of a listing carries.\<close>

definition item_entry :: "task_item \<Rightarrow> string \<times> task" where
  "item_entry i =
     (item_task_id i,
      \<lparr>status = item_status i, data = item_data i, priority = item_priority i,
       created_at = item_created_at i, result = item_result i\<rparr>)"

text \<open>A sequence of creation requests, each with the time at which it is handled.\<close>

fun create_all :: "(TaskRequest \<times> real) list \<Rightarrow> app_state \<Rightarrow> app_state" where
  "create_all [] s = s"
| "create_all ((task, now) # rest) s = create_all rest (snd (create_task task now s))"

text \<open>The identifiers that a sequence of creation requests names, in order.\<close>

fun requested_ids :: "(TaskRequest \<times> real) list \<Rightarrow> string list" where
  "requested_ids [] = []"
| "requested_ids ((task, now) # rest) = req_task_id task # requested_ids rest"

text \<open>Two more requests: one that reuses the identifier of \<^const>\<open>demo_request\<close> with
  another payload and priority, and one with an identifier of its own.\<close>

definition other_request :: TaskRequest where
  "other_request = \<lparr>req_task_id = ''t1'', req_data = [(''y'', JBool True)], req_priority = 9\<rparr>"

definition second_request :: TaskRequest where
  "second_request = \<lparr>req_task_id = ''t2'', req_data = [], req_priority = 1\<rparr>"

section \<open>Facts about the dict operations and the handlers\<close>

lemma set_update_subset: "set (AList.update k v al) \<subseteq> insert (k, v) (set al)"
  by (induction al) auto

lemma set_delete_subset: "set (AList.delete k al) \<subseteq> set al"
  by (auto simp: AList.delete_eq)

lemma get_task_state: "snd (get_task task_id s) = s"
  by (simp add: get_task_def split: option.split)

lemma list_tasks_state: "snd (list_tasks s) = s"
  by (simp add: list_tasks_def)

lemma demo_state_run: "run [Create demo_request 100] initial = demo_state"
  by (simp add: run_def initial_def create_task_def demo_request_def demo_state_def)

lemma map_of_update_same: "map_of (AList.update k v al) k = Some v"
  by (simp add: AList.update_conv')

lemma map_of_update_other: "k' \<noteq> k \<Longrightarrow> map_of (AList.update k v al) k' = map_of al k'"
  by (simp add: AList.update_conv')

lemma map_of_delete_same: "map_of (AList.delete k al) k = None"
  by (simp add: AList.delete_conv')

lemma delete_as_filter: "AList.delete k al = filter (\<lambda>p. fst p \<noteq> k) al"
  by (induction al) auto

lemma get_task_absent:
  "map_of (tasks_store s) task_id = None \<Longrightarrow> fst (get_task task_id s) = Inl NotFound"
  by (simp add: get_task_def)

lemma delete_task_absent_after:
  "map_of (tasks_store (snd (delete_task task_id s))) task_id = None"
  by (simp add: delete_task_def map_of_delete_same split: option.split)

lemma process_task_absent:
  "map_of (tasks_store s) task_id = None \<Longrightarrow> process_task task_id now s = s"
  by (simp add: process_task_def)

lemma complete_absent_store:
  assumes "map_of (tasks_store s) task_id = None"
  shows "tasks_store (step (Complete task_id now) s) = tasks_store s"
  using assms by (simp add: process_task_def)

subsection \<open>Shape of reachable stores\<close>

lemma store_shape_create: "store_shape s \<Longrightarrow> store_shape (snd (create_task task now s))"
  using set_update_subset
  by (fastforce simp: store_shape_def is_dict_def create_task_def AList.distinct_update)

lemma store_shape_delete: "store_shape s \<Longrightarrow> store_shape (snd (delete_task task_id s))"
  using set_delete_subset
  by (fastforce simp: store_shape_def is_dict_def delete_task_def AList.distinct_delete
        split: option.split)

lemma store_shape_process: "store_shape s \<Longrightarrow> store_shape (process_task task_id now s)"
  using set_update_subset
  by (fastforce simp: store_shape_def is_dict_def process_task_def AList.distinct_update
        split: option.split)

lemma store_shape_queue [simp]:
  "store_shape (s\<lparr>background_tasks := q\<rparr>) = store_shape s"
  by (simp add: store_shape_def)

lemma store_shape_step: "store_shape s \<Longrightarrow> store_shape (step e s)"
  by (cases e)
     (simp_all add: store_shape_create get_task_state list_tasks_state store_shape_delete
        store_shape_process)

lemma store_shape_fold: "store_shape s \<Longrightarrow> store_shape (fold step evs s)"
  by (induction evs arbitrary: s) (simp_all add: store_shape_step)

lemma store_shape_run: "store_shape (run evs initial)"
  unfolding run_def
  by (rule store_shape_fold) (simp add: store_shape_def is_dict_def initial_def)

lemma run_status:
  assumes "map_of (tasks_store (run evs initial)) task_id = Some t"
  shows "status t = ''pending'' \<or> status t = ''completed''"
proof -
  from assms have "(task_id, t) \<in> set (tasks_store (run evs initial))"
    by (rule map_of_SomeD)
  with store_shape_run [of evs] show ?thesis
    by (auto simp: store_shape_def)
qed

lemma filter_key_dict:
  "distinct (map fst al) \<Longrightarrow> map_of al k = Some v \<Longrightarrow> filter (\<lambda>(k', v'). k' = k) al = [(k, v)]"
proof (induction al)
  case Nil
  then show ?case by simp
next
  case (Cons p al)
  obtain k0 v0 where p: "p = (k0, v0)" by (cases p)
  show ?case
  proof (cases "k0 = k")
    case True
    with Cons.prems p have "v0 = v" by simp
    moreover from Cons.prems p True have "k \<notin> fst ` set al" by simp
    then have "filter (\<lambda>(k', v'). k' = k) al = []"
      by (force simp: filter_empty_conv)
    ultimately show ?thesis using p True by simp
  next
    case False
    with Cons p show ?thesis by simp
  qed
qed

lemma update_present_keys:
  "map_of al k = Some v \<Longrightarrow> map fst (AList.update k v' al) = map fst al"
  by (auto simp: AList.update_keys dest: map_of_SomeD intro: rev_image_eqI)

lemma is_dict_create: "is_dict (tasks_store s) \<Longrightarrow> is_dict (tasks_store (snd (create_task task now s)))"
  by (simp add: create_task_def is_dict_def AList.distinct_update)

lemma is_dict_process: "is_dict (tasks_store s) \<Longrightarrow> is_dict (tasks_store (process_task task_id now s))"
  by (simp add: process_task_def is_dict_def AList.distinct_update split: option.split)

lemma is_dict_delete: "is_dict (tasks_store s) \<Longrightarrow> is_dict (tasks_store (snd (delete_task task_id s)))"
  by (simp add: delete_task_def is_dict_def AList.distinct_delete split: option.split)

lemma create_task_single:
  assumes "is_dict (tasks_store s)"
  shows "filter (\<lambda>(tid, t). tid = req_task_id task) (tasks_store (snd (create_task task now s))) =
         [(req_task_id task,
           \<lparr>status = ''pending'', data = req_data task, priority = req_priority task,
            created_at = now, result = None\<rparr>)]"
proof (rule filter_key_dict)
  show "distinct (map fst (tasks_store (snd (create_task task now s))))"
    using is_dict_create [OF assms] by (simp add: is_dict_def)
  show "map_of (tasks_store (snd (create_task task now s))) (req_task_id task) =
        Some \<lparr>status = ''pending'', data = req_data task, priority = req_priority task,
              created_at = now, result = None\<rparr>"
    by (simp add: create_task_def map_of_update_same)
qed

lemma create_task_present_length:
  assumes "map_of (tasks_store s) (req_task_id task) = Some t"
  shows "length (tasks_store (snd (create_task task now s))) = length (tasks_store s)"
proof -
  have "map fst (tasks_store (snd (create_task task now s))) = map fst (tasks_store s)"
    using assms by (simp add: create_task_def update_present_keys)
  then have "length (map fst (tasks_store (snd (create_task task now s)))) =
             length (map fst (tasks_store s))"
    by (rule arg_cong)
  then show ?thesis by simp
qed

subsection \<open>Listings and record counts\<close>

lemma item_entry_listing:
  "map item_entry
     (map (\<lambda>(tid, d).
             \<lparr>item_task_id = tid, item_status = status d, item_data = data d,
              item_priority = priority d, item_created_at = created_at d,
              item_result = result d\<rparr>) al) = al"
  by (induction al) (auto simp: item_entry_def)

lemma item_ids_listing:
  "map item_task_id
     (map (\<lambda>(tid, d).
             \<lparr>item_task_id = tid, item_status = status d, item_data = data d,
              item_priority = priority d, item_created_at = created_at d,
              item_result = result d\<rparr>) al) = map fst al"
  by (induction al) auto

lemma list_tasks_entries:
  "\<exists>L. list_tasks s = (Inr L, s) \<and> map item_entry (tasks L) = tasks_store s \<and>
        map item_task_id (tasks L) = map fst (tasks_store s) \<and>
        length (tasks L) = length (tasks_store s) \<and> count L = length (tasks_store s)"
  by (simp add: list_tasks_def item_entry_listing item_ids_listing del: map_map)

lemma dict_length_card:
  "distinct (map fst al) \<Longrightarrow> length al = card (dom (map_of al))"
  by (metis distinct_card dom_map_of_conv_image_fst length_map set_map)

lemma create_fresh_keys:
  assumes "req_task_id task \<notin> fst ` set (tasks_store s)"
  shows "map fst (tasks_store (snd (create_task task now s))) =
         map fst (tasks_store s) @ [req_task_id task]"
  using assms by (simp add: create_task_def AList.update_keys)

lemma create_all_keys:
  assumes "distinct (requested_ids reqs)"
    and "set (requested_ids reqs) \<inter> fst ` set (tasks_store s) = {}"
  shows "map fst (tasks_store (create_all reqs s)) = map fst (tasks_store s) @ requested_ids reqs"
  using assms
proof (induction reqs s rule: create_all.induct)
  case (1 s)
  then show ?case by simp
next
  case (2 task now rest s)
  let ?s1 = "snd (create_task task now s)"
  from "2.prems" have fresh: "req_task_id task \<notin> fst ` set (tasks_store s)"
    by auto
  then have keys: "map fst (tasks_store ?s1) = map fst (tasks_store s) @ [req_task_id task]"
    by (rule create_fresh_keys)
  then have "set (map fst (tasks_store ?s1)) = insert (req_task_id task) (set (map fst (tasks_store s)))"
    by (simp only: set_append list.set Un_insert_right Un_empty_right)
  then have "fst ` set (tasks_store ?s1) = insert (req_task_id task) (fst ` set (tasks_store s))"
    by simp
  with "2.prems"
  have "set (requested_ids rest) \<inter> fst ` set (tasks_store ?s1) = {}"
    by auto
  moreover from "2.prems" have "distinct (requested_ids rest)"
    by simp
  ultimately have "map fst (tasks_store (create_all rest ?s1)) =
      map fst (tasks_store ?s1) @ requested_ids rest"
    by (rule "2.IH" [rotated])
  with keys show ?case by simp
qed

lemma delete_present_length:
  assumes "distinct (map fst al)" and "k \<in> set (map fst al)"
  shows "length (AList.delete k al) = length al - 1"
proof -
  have "length (map fst (AList.delete k al)) = length (remove1 k (map fst al))"
    using assms(1) by (simp add: AList.delete_keys distinct_remove1_removeAll del: length_map)
  also have "\<dots> = length (map fst al) - 1"
    using assms(2) by (simp add: length_remove1 del: length_map)
  finally show ?thesis by simp
qed


lemma length_requested_ids: "length (requested_ids reqs) = length reqs"
  by (induction reqs rule: requested_ids.induct) simp_all

lemma create_all_initial_keys:
  assumes "distinct (requested_ids reqs)"
  shows "map fst (tasks_store (create_all reqs initial)) = requested_ids reqs"
proof -
  have "set (requested_ids reqs) \<inter> fst ` set (tasks_store initial) = {}"
    by (simp add: initial_def)
  with assms have "map fst (tasks_store (create_all reqs initial)) =
      map fst (tasks_store initial) @ requested_ids reqs"
    by (rule create_all_keys)
  then show ?thesis by (simp add: initial_def)
qed

lemma create_all_initial_length:
  assumes "distinct (requested_ids reqs)"
  shows "length (tasks_store (create_all reqs initial)) = length reqs"
proof -
  have "length (map fst (tasks_store (create_all reqs initial))) = length (requested_ids reqs)"
    using create_all_initial_keys [OF assms] by (rule arg_cong)
  then show ?thesis by (simp add: length_requested_ids)
qed

lemma delete_task_length:
  assumes "is_dict (tasks_store s)" and "task_id \<in> set (map fst (tasks_store s))"
  shows "length (tasks_store (snd (delete_task task_id s))) = length (tasks_store s) - 1"
proof -
  from assms(2) have "map_of (tasks_store s) task_id \<noteq> None"
    by (simp add: map_of_eq_None_iff)
  then have "tasks_store (snd (delete_task task_id s)) = AList.delete task_id (tasks_store s)"
    by (auto simp: delete_task_def)
  with assms show ?thesis
    by (simp add: is_dict_def delete_present_length del: set_map)
qed

lemma list_tasks_count:
  "\<exists>L. fst (list_tasks s) = Inr L \<and> length (tasks L) = length (tasks_store s) \<and>
        count L = length (tasks_store s)"
  using list_tasks_entries [of s] by auto

section \<open>The invariant of the store\<close>

lemma create_task_keeps:
  assumes "result_iff_completed s"
  shows "result_iff_completed (snd (create_task task now s))"
  using assms set_update_subset
  by (fastforce simp: result_iff_completed_def create_task_def has_result_def)

lemma delete_task_keeps:
  assumes "result_iff_completed s"
  shows "result_iff_completed (snd (delete_task task_id s))"
  using assms set_delete_subset
  by (fastforce simp: result_iff_completed_def delete_task_def split: option.split)

lemma process_task_keeps:
  assumes "result_iff_completed s"
  shows "result_iff_completed (process_task task_id now s)"
  using assms set_update_subset
  by (fastforce simp: result_iff_completed_def process_task_def has_result_def
        split: option.split)

lemma result_iff_completed_queue [simp]:
  "result_iff_completed (s\<lparr>background_tasks := q\<rparr>) = result_iff_completed s"
  by (simp add: result_iff_completed_def)

lemma step_keeps:
  "result_iff_completed s \<Longrightarrow> result_iff_completed (step e s)"
  by (cases e)
     (simp_all add: create_task_keeps get_task_state list_tasks_state delete_task_keeps
        process_task_keeps)

lemma fold_step_keeps:
  "result_iff_completed s \<Longrightarrow> result_iff_completed (fold step evs s)"
  by (induction evs arbitrary: s) (simp_all add: step_keeps)

lemma initial_result_iff_completed: "result_iff_completed initial"
  by (simp add: result_iff_completed_def initial_def)

text \<open>
  Claim C1. In every state that a run of the service reaches from the empty store, each
  stored record has a present, non-empty \<open>result\<close> exactly when its \<open>status\<close> is
  \<open>completed\<close>; and from any state where this holds, it holds again after
  \<open>create_task\<close>, \<open>get_task\<close>, \<open>list_tasks\<close>, \<open>delete_task\<close>, the update of
  \<open>process_task\<close>, and any event of a run.
\<close>

theorem result_iff_completed_invariant:
  "result_iff_completed (run evs initial) \<and>
   (result_iff_completed s \<longrightarrow>
      result_iff_completed (snd (create_task task now s)) \<and>
      result_iff_completed (snd (get_task task_id s)) \<and>
      result_iff_completed (snd (list_tasks s)) \<and>
      result_iff_completed (snd (delete_task task_id s)) \<and>
      result_iff_completed (process_task task_id now s) \<and>
      result_iff_completed (step e s))"
  by (simp add: run_def fold_step_keeps initial_result_iff_completed create_task_keeps
        get_task_state list_tasks_state delete_task_keeps process_task_keeps step_keeps)

theorem result_iff_completed_invariant_witness:
  "result_iff_completed (run [Create demo_request 100, Complete ''t1'' 102] initial) \<and>
   tasks_store (run [Create demo_request 100, Complete ''t1'' 102] initial) =
     [(''t1'', \<lparr>status = ''completed'', data = [(''x'', JInt 1)], priority = 5,
                created_at = 100,
                result = Some [(''processed_at'', JFloat 102),
                               (''message'', JStr ''Task completed successfully'')]\<rparr>)] \<and>
   result_iff_completed demo_state \<and>
   result_iff_completed (process_task ''t1'' 102 demo_state) \<and>
   result_iff_completed (snd (delete_task ''t1'' demo_state))"
proof -
  have h: "result_iff_completed demo_state"
    by (simp add: result_iff_completed_def demo_state_def has_result_def)
  have r: "tasks_store (run [Create demo_request 100, Complete ''t1'' 102] initial) =
     [(''t1'', \<lparr>status = ''completed'', data = [(''x'', JInt 1)], priority = 5,
                created_at = 100,
                result = Some [(''processed_at'', JFloat 102),
                               (''message'', JStr ''Task completed successfully'')]\<rparr>)]"
    by (simp add: run_def initial_def create_task_def demo_request_def process_task_def)
  show ?thesis
    using h r
      result_iff_completed_invariant
        [of "[Create demo_request 100, Complete ''t1'' 102]" demo_state demo_request 102
            "''t1''" "Get ''t1''"]
    by simp
qed

section \<open>Creating and fetching\<close>

text \<open>
  Claim C2. Whatever the identifier (in particular every non-empty one) and whatever
  the state, \<open>get_task\<close> on the identifier right after \<open>create_task\<close>, with no
  completion step in between, answers with status \<open>pending\<close> and no result.
\<close>

theorem create_then_get_pending:
  "fst (get_task (req_task_id task) (snd (create_task task now s))) =
     Inr \<lparr>resp_task_id = req_task_id task,
          resp_status = ''pending'',
          resp_message = ''Task retrieved successfully'',
          resp_result = None\<rparr>"
  by (simp add: get_task_def create_task_def map_of_update_same)

section \<open>The completion step\<close>

text \<open>
  Claim C3, as stated, fails: after the completion step of a task that is present, the
  result has no key \<open>completed_at\<close>, so that key does not hold the completion time.
\<close>

theorem completed_at_key_counterexample:
  "map_of (tasks_store demo_state) ''t1'' \<noteq> None \<and>
   result_field ''t1'' ''completed_at'' (process_task ''t1'' 102 demo_state) = None \<and>
   result_field ''t1'' ''completed_at'' (process_task ''t1'' 102 demo_state) \<noteq> Some (JFloat 102)"
  by (simp add: demo_state_def process_task_def result_field_def)

text \<open>
  Claim C3, amended. For a task that is present when its completion step runs, the
  step sets the status to \<open>completed\<close> and the result to the dict with exactly the key
  \<open>processed_at\<close>, holding the time of completion, and the key \<open>message\<close>, holding
  \<open>Task completed successfully\<close>.
\<close>

theorem process_task_completes:
  assumes "map_of (tasks_store s) task_id = Some t"
  shows "\<exists>t'. map_of (tasks_store (process_task task_id now s)) task_id = Some t' \<and>
           status t' = ''completed'' \<and>
           result t' = Some [(''processed_at'', JFloat now),
                             (''message'', JStr ''Task completed successfully'')] \<and>
           result_field task_id ''processed_at'' (process_task task_id now s) = Some (JFloat now) \<and>
           result_field task_id ''message'' (process_task task_id now s) =
             Some (JStr ''Task completed successfully'')"
  using assms by (simp add: process_task_def result_field_def map_of_update_same)

theorem process_task_completes_witness:
  "map_of (tasks_store demo_state) ''t1'' =
     Some \<lparr>status = ''pending'', data = [(''x'', JInt 1)], priority = 5,
           created_at = 100, result = None\<rparr> \<and>
   (\<exists>t'. map_of (tasks_store (process_task ''t1'' 102 demo_state)) ''t1'' = Some t' \<and>
           status t' = ''completed'' \<and>
           result t' = Some [(''processed_at'', JFloat 102),
                             (''message'', JStr ''Task completed successfully'')] \<and>
           result_field ''t1'' ''processed_at'' (process_task ''t1'' 102 demo_state) = Some (JFloat 102) \<and>
           result_field ''t1'' ''message'' (process_task ''t1'' 102 demo_state) =
             Some (JStr ''Task completed successfully''))"
proof -
  have h: "map_of (tasks_store demo_state) ''t1'' =
     Some \<lparr>status = ''pending'', data = [(''x'', JInt 1)], priority = 5,
           created_at = 100, result = None\<rparr>"
    by (simp add: demo_state_def)
  show ?thesis
    using h process_task_completes [OF h, of 102] by blast
qed

text \<open>
  Claim C4. When the identifier is absent from the store, the update of \<open>process_task\<close>
  returns the state as it is, a scheduled completion step leaves the store as it is, and
  \<open>get_task\<close> afterwards raises the not-found exception; in particular a completion
  step that follows a deletion of the identifier never brings the record back.
\<close>

theorem completion_of_absent_task:
  "(map_of (tasks_store s) task_id = None \<longrightarrow>
      process_task task_id now s = s \<and>
      tasks_store (step (Complete task_id now) s) = tasks_store s \<and>
      fst (get_task task_id (process_task task_id now s)) = Inl NotFound \<and>
      fst (get_task task_id (step (Complete task_id now) s)) = Inl NotFound) \<and>
   fst (get_task task_id (step (Complete task_id now) (step (Delete task_id) s))) = Inl NotFound"
proof -
  have "map_of (tasks_store (step (Delete task_id) s)) task_id = None"
    by (simp add: delete_task_absent_after)
  then have "map_of (tasks_store (step (Complete task_id now) (step (Delete task_id) s))) task_id = None"
    by (simp only: complete_absent_store)
  then have d: "fst (get_task task_id (step (Complete task_id now) (step (Delete task_id) s))) = Inl NotFound"
    by (rule get_task_absent)
  have "map_of (tasks_store s) task_id = None \<Longrightarrow>
      fst (get_task task_id (step (Complete task_id now) s)) = Inl NotFound"
    by (rule get_task_absent) (simp only: complete_absent_store)
  with d show ?thesis
    by (simp add: process_task_absent complete_absent_store get_task_absent)
qed

theorem completion_of_absent_task_witness:
  "map_of (tasks_store (snd (delete_task ''t1'' demo_state))) ''t1'' = None \<and>
   ''t1'' \<in> set (background_tasks (snd (delete_task ''t1'' demo_state))) \<and>
   tasks_store (step (Complete ''t1'' 102) (snd (delete_task ''t1'' demo_state))) = [] \<and>
   fst (get_task ''t1'' (step (Complete ''t1'' 102) (snd (delete_task ''t1'' demo_state)))) =
     Inl NotFound \<and>
   fst (get_task ''t1''
     (run [Create demo_request 100, Delete ''t1'', Complete ''t1'' 102] initial)) = Inl NotFound"
proof -
  have h: "map_of (tasks_store (snd (delete_task ''t1'' demo_state))) ''t1'' = None"
    by (simp add: delete_task_def demo_state_def)
  have q: "''t1'' \<in> set (background_tasks (snd (delete_task ''t1'' demo_state)))"
    by (simp add: delete_task_def demo_state_def)
  have e: "tasks_store (snd (delete_task ''t1'' demo_state)) = []"
    by (simp add: delete_task_def demo_state_def)
  have r: "run [Create demo_request 100, Delete ''t1'', Complete ''t1'' 102] initial =
           step (Complete ''t1'' 102) (step (Delete ''t1'') demo_state)"
    using demo_state_run by (simp add: run_def)
  show ?thesis
    using h q e r
      completion_of_absent_task [of "snd (delete_task ''t1'' demo_state)" "''t1''" 102]
      completion_of_absent_task [of demo_state "''t1''" 102]
    by simp
qed

section \<open>Fetching and deleting\<close>

text \<open>
  Claim C5. \<open>get_task\<close> raises, and then raises the not-found exception, exactly when
  the identifier is absent from the store; when a record is stored it answers with the
  stored status and the stored result (absent when the record has none); it never
  changes the state; and in every reachable state the stored status is \<open>pending\<close> or
  \<open>completed\<close>.
\<close>

theorem get_task_found_iff_present:
  "(fst (get_task task_id s) = Inl NotFound \<longleftrightarrow> map_of (tasks_store s) task_id = None) \<and>
   (isl (fst (get_task task_id s)) \<longleftrightarrow> map_of (tasks_store s) task_id = None) \<and>
   (\<forall>t. map_of (tasks_store s) task_id = Some t \<longrightarrow>
      fst (get_task task_id s) =
        Inr \<lparr>resp_task_id = task_id, resp_status = status t,
             resp_message = ''Task retrieved successfully'', resp_result = result t\<rparr>) \<and>
   snd (get_task task_id s) = s \<and>
   (\<forall>t. map_of (tasks_store (run evs initial)) task_id = Some t \<longrightarrow>
      status t = ''pending'' \<or> status t = ''completed'')"
proof -
  have a: "fst (get_task task_id s) = Inl NotFound \<longleftrightarrow> map_of (tasks_store s) task_id = None"
    by (simp add: get_task_def split: option.split)
  have b: "isl (fst (get_task task_id s)) \<longleftrightarrow> map_of (tasks_store s) task_id = None"
    by (simp add: get_task_def split: option.split)
  have c: "\<forall>t. map_of (tasks_store s) task_id = Some t \<longrightarrow>
      fst (get_task task_id s) =
        Inr \<lparr>resp_task_id = task_id, resp_status = status t,
             resp_message = ''Task retrieved successfully'', resp_result = result t\<rparr>"
    by (simp add: get_task_def)
  from a b c show ?thesis
    using get_task_state run_status by blast
qed

theorem get_task_found_iff_present_witness:
  "map_of (tasks_store demo_state) ''unknown'' = None \<and>
   fst (get_task ''unknown'' demo_state) = Inl NotFound \<and>
   snd (get_task ''unknown'' demo_state) = demo_state \<and>
   map_of (tasks_store (run [Create demo_request 100] initial)) ''t1'' =
     Some \<lparr>status = ''pending'', data = [(''x'', JInt 1)], priority = 5,
           created_at = 100, result = None\<rparr> \<and>
   fst (get_task ''t1'' demo_state) =
     Inr \<lparr>resp_task_id = ''t1'', resp_status = ''pending'',
          resp_message = ''Task retrieved successfully'', resp_result = None\<rparr>"
proof -
  have h: "map_of (tasks_store demo_state) ''unknown'' = None"
    by (simp add: demo_state_def)
  have p: "map_of (tasks_store demo_state) ''t1'' =
     Some \<lparr>status = ''pending'', data = [(''x'', JInt 1)], priority = 5,
           created_at = 100, result = None\<rparr>"
    by (simp add: demo_state_def)
  show ?thesis
    using h p demo_state_run
      get_task_found_iff_present [of "''unknown''" demo_state "[Create demo_request 100]"]
      get_task_found_iff_present [of "''t1''" demo_state "[Create demo_request 100]"]
    by simp
qed

text \<open>
  Claim C6. When the identifier is absent, \<open>delete_task\<close> raises the not-found
  exception and leaves the state as it is. When it is present, \<open>delete_task\<close>
  succeeds, removes that record and no other, keeps the scheduled calls, and
  \<open>get_task\<close> on the identifier afterwards raises the not-found exception.
\<close>

theorem delete_task_removes_iff_present:
  "(map_of (tasks_store s) task_id = None \<longrightarrow> delete_task task_id s = (Inl NotFound, s)) \<and>
   (map_of (tasks_store s) task_id \<noteq> None \<longrightarrow>
      fst (delete_task task_id s) = Inr [(''message'', ''Task deleted successfully'')] \<and>
      map_of (tasks_store (snd (delete_task task_id s))) =
        (map_of (tasks_store s))(task_id := None) \<and>
      tasks_store (snd (delete_task task_id s)) =
        filter (\<lambda>p. fst p \<noteq> task_id) (tasks_store s) \<and>
      background_tasks (snd (delete_task task_id s)) = background_tasks s \<and>
      fst (get_task task_id (snd (delete_task task_id s))) = Inl NotFound)"
proof -
  have "fst (get_task task_id (snd (delete_task task_id s))) = Inl NotFound"
    by (rule get_task_absent) (rule delete_task_absent_after)
  then show ?thesis
    by (auto simp: delete_task_def AList.delete_conv' delete_as_filter [symmetric])
qed

theorem delete_task_removes_iff_present_witness:
  "map_of (tasks_store demo_state) ''unknown'' = None \<and>
   delete_task ''unknown'' demo_state = (Inl NotFound, demo_state) \<and>
   map_of (tasks_store demo_state) ''t1'' \<noteq> None \<and>
   fst (delete_task ''t1'' demo_state) = Inr [(''message'', ''Task deleted successfully'')] \<and>
   tasks_store (snd (delete_task ''t1'' demo_state)) = [] \<and>
   fst (get_task ''t1'' (snd (delete_task ''t1'' demo_state))) = Inl NotFound"
proof -
  have h: "map_of (tasks_store demo_state) ''unknown'' = None"
    by (simp add: demo_state_def)
  have p: "map_of (tasks_store demo_state) ''t1'' \<noteq> None"
    by (simp add: demo_state_def)
  have f: "filter (\<lambda>p. fst p \<noteq> ''t1'') (tasks_store demo_state) = []"
    by (simp add: demo_state_def)
  show ?thesis
    using h p f
      delete_task_removes_iff_present [of demo_state "''unknown''"]
      delete_task_removes_iff_present [of demo_state "''t1''"]
    by simp
qed

section \<open>Creating\<close>

text \<open>
  Claim C7. In a store that is a dict, two creations with the same identifier leave
  exactly one record under that identifier, and no more records than the first creation
  left; that record holds the data, the priority and the time of the second creation,
  with status \<open>pending\<close> and no result. The same holds when the first task was
  completed before the second creation.
\<close>

theorem create_twice_overwrites:
  assumes "is_dict (tasks_store s)"
    and "req_task_id second = req_task_id first"
  shows "filter (\<lambda>(tid, t). tid = req_task_id first)
           (tasks_store (snd (create_task second now2 (snd (create_task first now1 s))))) =
         [(req_task_id first,
           \<lparr>status = ''pending'', data = req_data second, priority = req_priority second,
            created_at = now2, result = None\<rparr>)] \<and>
         map_of (tasks_store (snd (create_task second now2 (snd (create_task first now1 s)))))
           (req_task_id first) =
         Some \<lparr>status = ''pending'', data = req_data second, priority = req_priority second,
               created_at = now2, result = None\<rparr> \<and>
         length (tasks_store (snd (create_task second now2 (snd (create_task first now1 s))))) =
         length (tasks_store (snd (create_task first now1 s))) \<and>
         filter (\<lambda>(tid, t). tid = req_task_id first)
           (tasks_store (snd (create_task second now2
              (process_task (req_task_id first) done (snd (create_task first now1 s)))))) =
         [(req_task_id first,
           \<lparr>status = ''pending'', data = req_data second, priority = req_priority second,
            created_at = now2, result = None\<rparr>)]"
proof -
  let ?s1 = "snd (create_task first now1 s)"
  have d1: "is_dict (tasks_store ?s1)"
    using assms(1) by (rule is_dict_create)
  have a: "filter (\<lambda>(tid, t). tid = req_task_id second)
             (tasks_store (snd (create_task second now2 ?s1))) =
           [(req_task_id second,
             \<lparr>status = ''pending'', data = req_data second, priority = req_priority second,
              created_at = now2, result = None\<rparr>)]"
    using d1 by (rule create_task_single)
  have b: "map_of (tasks_store (snd (create_task second now2 ?s1))) (req_task_id second) =
           Some \<lparr>status = ''pending'', data = req_data second, priority = req_priority second,
                 created_at = now2, result = None\<rparr>"
    by (simp add: create_task_def map_of_update_same)
  have "map_of (tasks_store ?s1) (req_task_id second) =
          Some \<lparr>status = ''pending'', data = req_data first, priority = req_priority first,
                created_at = now1, result = None\<rparr>"
    using assms(2) by (simp add: create_task_def map_of_update_same)
  then have c: "length (tasks_store (snd (create_task second now2 ?s1))) =
                length (tasks_store ?s1)"
    by (rule create_task_present_length)
  have "is_dict (tasks_store (process_task (req_task_id first) done ?s1))"
    using d1 by (rule is_dict_process)
  then have d: "filter (\<lambda>(tid, t). tid = req_task_id second)
             (tasks_store (snd (create_task second now2
                (process_task (req_task_id first) done ?s1)))) =
           [(req_task_id second,
             \<lparr>status = ''pending'', data = req_data second, priority = req_priority second,
              created_at = now2, result = None\<rparr>)]"
    by (rule create_task_single)
  from a b c d show ?thesis
    by (simp only: assms(2) simp_thms)
qed

theorem create_twice_overwrites_witness:
  "is_dict (tasks_store initial) \<and> req_task_id other_request = req_task_id demo_request \<and>
   tasks_store (snd (create_task other_request 101 (snd (create_task demo_request 100 initial)))) =
     [(''t1'', \<lparr>status = ''pending'', data = [(''y'', JBool True)], priority = 9,
                created_at = 101, result = None\<rparr>)] \<and>
   filter (\<lambda>(tid, t). tid = ''t1'')
     (tasks_store (snd (create_task other_request 101 (snd (create_task demo_request 100 initial))))) =
     [(''t1'', \<lparr>status = ''pending'', data = [(''y'', JBool True)], priority = 9,
                created_at = 101, result = None\<rparr>)]"
proof -
  have h1: "is_dict (tasks_store initial)"
    by (simp add: is_dict_def initial_def)
  have h2: "req_task_id other_request = req_task_id demo_request"
    by (simp add: other_request_def demo_request_def)
  have e: "tasks_store (snd (create_task other_request 101 (snd (create_task demo_request 100 initial)))) =
     [(''t1'', \<lparr>status = ''pending'', data = [(''y'', JBool True)], priority = 9,
                created_at = 101, result = None\<rparr>)]"
    by (simp add: create_task_def initial_def other_request_def demo_request_def)
  show ?thesis
    using h1 h2 e create_twice_overwrites [OF h1 h2, of 101 100 102]
    by (simp add: demo_request_def other_request_def)
qed

text \<open>
  Claim C8. \<open>create_task\<close> never raises, whatever the request and the state (so also
  for an identifier that is already stored): it always answers with status
  \<open>accepted\<close> and the message \<open>Task created successfully\<close>, while the record that it
  stores has status \<open>pending\<close>.
\<close>

theorem create_task_always_accepted:
  "fst (create_task task now s) =
     Inr \<lparr>resp_task_id = req_task_id task, resp_status = ''accepted'',
          resp_message = ''Task created successfully'', resp_result = None\<rparr> \<and>
   map_of (tasks_store (snd (create_task task now s))) (req_task_id task) =
     Some \<lparr>status = ''pending'', data = req_data task, priority = req_priority task,
           created_at = now, result = None\<rparr>"
  by (simp add: create_task_def map_of_update_same)

section \<open>Listing\<close>

text \<open>
  Claim C9. \<open>list_tasks\<close> always succeeds and changes nothing; its items are the
  entries of the store, each with its identifier and all stored fields, and its count
  is the number of items. In a store that is a dict, as every reachable store is, no
  identifier is listed twice and the count is the number of stored identifiers. After
  creating \<open>N\<close> distinct identifiers from the empty store the listing has \<open>N\<close> items
  and count \<open>N\<close>, and after deleting one of them it has \<open>N - 1\<close> items and count
  \<open>N - 1\<close>.
\<close>

theorem list_tasks_all_records:
  "(\<exists>L. list_tasks s = (Inr L, s) \<and>
         map item_entry (tasks L) = tasks_store s \<and>
         count L = length (tasks L) \<and>
         (is_dict (tasks_store s) \<longrightarrow>
            distinct (map item_task_id (tasks L)) \<and>
            count L = card (dom (map_of (tasks_store s))))) \<and>
   is_dict (tasks_store (run evs initial)) \<and>
   (distinct (requested_ids reqs) \<longrightarrow>
      (\<exists>L. fst (list_tasks (create_all reqs initial)) = Inr L \<and>
            length (tasks L) = length reqs \<and> count L = length reqs) \<and>
      (\<forall>task_id \<in> set (requested_ids reqs).
         \<exists>L. fst (list_tasks (snd (delete_task task_id (create_all reqs initial)))) = Inr L \<and>
             length (tasks L) = length reqs - 1 \<and> count L = length reqs - 1))"
proof (intro conjI impI ballI)
  obtain L where L: "list_tasks s = (Inr L, s)" "map item_entry (tasks L) = tasks_store s"
    "map item_task_id (tasks L) = map fst (tasks_store s)"
    "length (tasks L) = length (tasks_store s)" "count L = length (tasks_store s)"
    using list_tasks_entries [of s] by blast
  have "is_dict (tasks_store s) \<longrightarrow>
          distinct (map item_task_id (tasks L)) \<and> count L = card (dom (map_of (tasks_store s)))"
    using L(3,5) by (simp add: is_dict_def dict_length_card)
  with L show "\<exists>L. list_tasks s = (Inr L, s) \<and>
         map item_entry (tasks L) = tasks_store s \<and>
         count L = length (tasks L) \<and>
         (is_dict (tasks_store s) \<longrightarrow>
            distinct (map item_task_id (tasks L)) \<and>
            count L = card (dom (map_of (tasks_store s))))"
    by auto
next
  show "is_dict (tasks_store (run evs initial))"
    using store_shape_run [of evs] by (simp add: store_shape_def)
next
  assume d: "distinct (requested_ids reqs)"
  show "\<exists>L. fst (list_tasks (create_all reqs initial)) = Inr L \<and>
            length (tasks L) = length reqs \<and> count L = length reqs"
    using list_tasks_count [of "create_all reqs initial"] create_all_initial_length [OF d]
    by simp
next
  fix task_id
  assume d: "distinct (requested_ids reqs)" and m: "task_id \<in> set (requested_ids reqs)"
  let ?s = "create_all reqs initial"
  have k: "map fst (tasks_store ?s) = requested_ids reqs"
    using d by (rule create_all_initial_keys)
  have "is_dict (tasks_store ?s)"
    using d k by (simp add: is_dict_def)
  moreover have "task_id \<in> set (map fst (tasks_store ?s))"
    using m k by simp
  ultimately have "length (tasks_store (snd (delete_task task_id ?s))) = length (tasks_store ?s) - 1"
    by (rule delete_task_length)
  then have "length (tasks_store (snd (delete_task task_id ?s))) = length reqs - 1"
    using create_all_initial_length [OF d] by simp
  then show "\<exists>L. fst (list_tasks (snd (delete_task task_id ?s))) = Inr L \<and>
             length (tasks L) = length reqs - 1 \<and> count L = length reqs - 1"
    using list_tasks_count [of "snd (delete_task task_id ?s)"] by simp
qed

theorem list_tasks_all_records_witness:
  "is_dict (tasks_store demo_state) \<and>
   distinct (requested_ids [(demo_request, 100), (second_request, 101)]) \<and>
   ''t1'' \<in> set (requested_ids [(demo_request, 100), (second_request, 101)]) \<and>
   fst (list_tasks (create_all [(demo_request, 100), (second_request, 101)] initial)) =
     Inr \<lparr>tasks =
            [\<lparr>item_task_id = ''t1'', item_status = ''pending'', item_data = [(''x'', JInt 1)],
              item_priority = 5, item_created_at = 100, item_result = None\<rparr>,
             \<lparr>item_task_id = ''t2'', item_status = ''pending'', item_data = [],
              item_priority = 1, item_created_at = 101, item_result = None\<rparr>],
          count = 2\<rparr> \<and>
   fst (list_tasks (snd (delete_task ''t1''
          (create_all [(demo_request, 100), (second_request, 101)] initial)))) =
     Inr \<lparr>tasks =
            [\<lparr>item_task_id = ''t2'', item_status = ''pending'', item_data = [],
              item_priority = 1, item_created_at = 101, item_result = None\<rparr>],
          count = 1\<rparr> \<and>
   (\<exists>L. fst (list_tasks (snd (delete_task ''t1''
             (create_all [(demo_request, 100), (second_request, 101)] initial)))) = Inr L \<and>
        length (tasks L) = 1 \<and> count L = 1) \<and>
   (\<exists>L. list_tasks demo_state = (Inr L, demo_state) \<and>
        map item_entry (tasks L) = tasks_store demo_state \<and> count L = 1)"
proof -
  have h1: "is_dict (tasks_store demo_state)"
    by (simp add: is_dict_def demo_state_def)
  have h2: "distinct (requested_ids [(demo_request, 100), (second_request, 101)])"
    by (simp add: demo_request_def second_request_def)
  have h3: "''t1'' \<in> set (requested_ids [(demo_request, 100), (second_request, 101)])"
    by (simp add: demo_request_def)
  have e1: "fst (list_tasks (create_all [(demo_request, 100), (second_request, 101)] initial)) =
     Inr \<lparr>tasks =
            [\<lparr>item_task_id = ''t1'', item_status = ''pending'', item_data = [(''x'', JInt 1)],
              item_priority = 5, item_created_at = 100, item_result = None\<rparr>,
             \<lparr>item_task_id = ''t2'', item_status = ''pending'', item_data = [],
              item_priority = 1, item_created_at = 101, item_result = None\<rparr>],
          count = 2\<rparr>"
    by (simp add: list_tasks_def create_task_def initial_def demo_request_def second_request_def)
  have e2: "fst (list_tasks (snd (delete_task ''t1''
          (create_all [(demo_request, 100), (second_request, 101)] initial)))) =
     Inr \<lparr>tasks =
            [\<lparr>item_task_id = ''t2'', item_status = ''pending'', item_data = [],
              item_priority = 1, item_created_at = 101, item_result = None\<rparr>],
          count = 1\<rparr>"
    by (simp add: list_tasks_def delete_task_def create_task_def initial_def demo_request_def
          second_request_def)
  have l: "length (tasks_store demo_state) = 1"
    by (simp add: demo_state_def)
  from list_tasks_all_records
         [of demo_state "[]" "[(demo_request, 100), (second_request, 101)]"]
  have a: "\<exists>L. list_tasks demo_state = (Inr L, demo_state) \<and>
        map item_entry (tasks L) = tasks_store demo_state \<and> count L = length (tasks L)"
    and b: "\<forall>task_id \<in> set (requested_ids [(demo_request, 100), (second_request, 101)]).
         \<exists>L. fst (list_tasks (snd (delete_task task_id
                (create_all [(demo_request, 100), (second_request, 101)] initial)))) = Inr L \<and>
             length (tasks L) = length [(demo_request, 100::real), (second_request, 101)] - 1 \<and>
             count L = length [(demo_request, 100::real), (second_request, 101)] - 1"
    using h1 h2 by blast+
  from bspec [OF b h3] have c: "\<exists>L. fst (list_tasks (snd (delete_task ''t1''
             (create_all [(demo_request, 100), (second_request, 101)] initial)))) = Inr L \<and>
        length (tasks L) = 1 \<and> count L = 1"
    by simp
  from a l have a': "\<exists>L. list_tasks demo_state = (Inr L, demo_state) \<and>
        map item_entry (tasks L) = tasks_store demo_state \<and> count L = 1"
    by (metis length_map)
  from h1 h2 h3 e1 e2 c a' show ?thesis
    by (intro conjI)
qed

section \<open>What the completion step leaves alone\<close>

text \<open>
  Claim C10. When the task is present, the update of \<open>process_task\<close> changes nothing
  of its record but \<open>status\<close> and \<open>result\<close>: \<open>data\<close>, \<open>priority\<close> and \<open>created_at\<close> stay.
  The record of every other identifier, the order of the keys and the scheduled calls
  stay as well.
\<close>

theorem process_task_frame:
  assumes "map_of (tasks_store s) task_id = Some t"
  shows "\<exists>t'. map_of (tasks_store (process_task task_id now s)) task_id = Some t' \<and>
           data t' = data t \<and> priority t' = priority t \<and> created_at t' = created_at t \<and>
           t' = t\<lparr>status := status t', result := result t'\<rparr> \<and>
           (\<forall>other. other \<noteq> task_id \<longrightarrow>
              map_of (tasks_store (process_task task_id now s)) other =
              map_of (tasks_store s) other) \<and>
           map fst (tasks_store (process_task task_id now s)) = map fst (tasks_store s) \<and>
           background_tasks (process_task task_id now s) = background_tasks s"
  using assms
  by (simp add: process_task_def map_of_update_same map_of_update_other update_present_keys)


theorem process_task_frame_witness:
  "map_of (tasks_store demo_state) ''t1'' =
     Some \<lparr>status = ''pending'', data = [(''x'', JInt 1)], priority = 5,
           created_at = 100, result = None\<rparr> \<and>
   (\<exists>t'. map_of (tasks_store (process_task ''t1'' 102 demo_state)) ''t1'' = Some t' \<and>
         data t' = [(''x'', JInt 1)] \<and> priority t' = 5 \<and> created_at t' = 100) \<and>
   map fst (tasks_store (process_task ''t1'' 102 demo_state)) = [''t1''] \<and>
   background_tasks (process_task ''t1'' 102 demo_state) = [''t1'']"
proof -
  have h: "map_of (tasks_store demo_state) ''t1'' =
     Some \<lparr>status = ''pending'', data = [(''x'', JInt 1)], priority = 5,
           created_at = 100, result = None\<rparr>"
    by (simp add: demo_state_def)
  have k: "map fst (tasks_store demo_state) = [''t1'']" "background_tasks demo_state = [''t1'']"
    by (simp_all add: demo_state_def)
  show ?thesis
    using h k process_task_frame [OF h, of 102] by auto
qed


end
